theory Spec2Isabelle
  imports Main "HOL-Library.Word"
begin

unbundle bit_operations_syntax

section \<open>Release signing script: \<^verbatim>\<open>scripts/sign-release.py\<close>\<close>

text \<open>
  The script signs one release archive and prints an update descriptor.  Byte strings
  (\<^verbatim>\<open>bytes\<close>) are modelled as \<^typ>\<open>string\<close>.  So is the text (\<^verbatim>\<open>str\<close>) that comes
  from the command line and from the script's own constants: for it the model covers
  ASCII, on which \<^verbatim>\<open>str.encode()\<close> and \<^verbatim>\<open>bytes.decode()\<close> (UTF-8) leave the
  characters as they are.  The text read from the key file is arbitrary file content and
  is modelled in full, as a list of code points (see the section on text files).  The
  libraries \<^verbatim>\<open>pathlib\<close>, \<^verbatim>\<open>base64\<close>, \<^verbatim>\<open>hashlib\<close>, \<^verbatim>\<open>json\<close> and \<^verbatim>\<open>io\<close> are modelled as
  CPython 3.11 has them on POSIX with a UTF-8 locale; PyNaCl is taken to be installed
  (lines 23 to 28 then do nothing).
\<close>

subsection \<open>Text helpers\<close>

definition LF :: char where
  "LF = CHR 0x0A"

definition encode :: "string \<Rightarrow> string" where
  \<comment> \<open>\<^verbatim>\<open>str.encode()\<close>\<close>
  "encode s = s"

definition decode :: "string \<Rightarrow> string" where
  \<comment> \<open>\<^verbatim>\<open>bytes.decode()\<close>\<close>
  "decode b = b"

definition print_line :: "string \<Rightarrow> string \<Rightarrow> string" where
  \<comment> \<open>what \<^verbatim>\<open>print(s, file=chan)\<close> leaves on a channel that held \<open>chan\<close>\<close>
  "print_line chan s = chan @ s @ [LF]"

definition isspace_cp :: "nat \<Rightarrow> bool" where
  \<comment> \<open>the code points for which \<^verbatim>\<open>str.isspace\<close> holds, which \<^verbatim>\<open>str.strip()\<close> removes\<close>
  "isspace_cp n =
     ((9 \<le> n \<and> n \<le> 13) \<or> (28 \<le> n \<and> n \<le> 32) \<or> n = 133 \<or> n = 160 \<or> n = 5760 \<or>
      (8192 \<le> n \<and> n \<le> 8202) \<or> n = 8232 \<or> n = 8233 \<or> n = 8239 \<or> n = 8287 \<or>
      n = 12288)"

definition isspace :: "char \<Rightarrow> bool" where
  "isspace c = isspace_cp (of_char c)"

definition lstrip :: "string \<Rightarrow> string" where
  "lstrip s = dropWhile isspace s"

definition rstrip :: "string \<Rightarrow> string" where
  "rstrip s = rev (dropWhile isspace (rev s))"

definition strip :: "string \<Rightarrow> string" where
  \<comment> \<open>\<^verbatim>\<open>str.strip()\<close>\<close>
  "strip s = rstrip (lstrip s)"

definition digit_char :: "nat \<Rightarrow> char" where
  "digit_char n = ''0123456789abcdef'' ! (n mod 16)"

definition pad2 :: "nat \<Rightarrow> string" where
  "pad2 n = [digit_char (n div 10 mod 10), digit_char (n mod 10)]"

definition pad4 :: "nat \<Rightarrow> string" where
  "pad4 n = pad2 (n div 100 mod 100) @ pad2 (n mod 100)"

subsection \<open>\<^verbatim>\<open>pathlib.Path\<close> (POSIX flavour)\<close>

text \<open>
  A path is its anchor (empty, \<^verbatim>\<open>/\<close> or \<^verbatim>\<open>//\<close>) and its components; empty components
  and \<^verbatim>\<open>.\<close> are dropped when the path is built, as \<^verbatim>\<open>pathlib\<close> does.
\<close>

datatype path = Path (anchor: string) (parts: "string list")

fun split_slash :: "string \<Rightarrow> string \<Rightarrow> string list" where
  "split_slash cur [] = [cur]"
| "split_slash cur (c # cs) =
     (if c = CHR ''/'' then cur # split_slash [] cs else split_slash (cur @ [c]) cs)"

definition path_anchor :: "string \<Rightarrow> string" where
  "path_anchor s =
     (let n = length (takeWhile (\<lambda>c. c = CHR ''/'') s)
      in if n = 0 then [] else if n = 2 then ''//'' else ''/'')"

definition mk_path :: "string \<Rightarrow> path" where
  \<comment> \<open>\<^verbatim>\<open>Path(s)\<close>\<close>
  "mk_path s = Path (path_anchor s) (filter (\<lambda>p. p \<noteq> [] \<and> p \<noteq> ''.'') (split_slash [] s))"

fun join_slash :: "string list \<Rightarrow> string" where
  "join_slash [] = []"
| "join_slash [p] = p"
| "join_slash (p # q # ps) = p @ ''/'' @ join_slash (q # ps)"

definition path_str :: "path \<Rightarrow> string" where
  \<comment> \<open>\<^verbatim>\<open>str(p)\<close>\<close>
  "path_str p =
     (if anchor p = [] \<and> parts p = [] then ''.'' else anchor p @ join_slash (parts p))"

definition path_name :: "path \<Rightarrow> string" where
  \<comment> \<open>\<^verbatim>\<open>p.name\<close>\<close>
  "path_name p = (if parts p = [] then [] else last (parts p))"

definition path_parent :: "path \<Rightarrow> path" where
  \<comment> \<open>\<^verbatim>\<open>p.parent\<close>\<close>
  "path_parent p = Path (anchor p) (butlast (parts p))"

definition path_join :: "path \<Rightarrow> string \<Rightarrow> path" where
  \<comment> \<open>\<^verbatim>\<open>p / s\<close>: an absolute right operand replaces the left one\<close>
  "path_join p s =
     (let q = mk_path s
      in if anchor q \<noteq> [] then q else Path (anchor p) (parts p @ parts q))"

subsection \<open>Configuration (lines 30 to 65)\<close>

definition DOWNLOAD_BASE_URL :: string where
  "DOWNLOAD_BASE_URL = ''https://loiq-wp-agent.vercel.app''"

definition KEY_ID :: string where
  "KEY_ID = ''key-2026-01''"

definition SIGNING_KEY_PATH :: "string \<Rightarrow> path" where
  \<comment> \<open>\<^verbatim>\<open>Path(__file__).parent / ".signing-key"\<close>; the argument is \<^verbatim>\<open>__file__\<close>\<close>
  "SIGNING_KEY_PATH script = path_join (path_parent (mk_path script)) ''.signing-key''"

definition unlines :: "string list \<Rightarrow> string" where
  "unlines ls = concat (map (\<lambda>l. l @ [LF]) ls)"

definition CHANGELOG :: "(string \<times> string) list" where
  "CHANGELOG =
   [(''3.1.4'', [LF] @ unlines
      [''### 3.1.4 - Security & Quality Hardening'',
       ''- SECURITY: exec() vervangen door token_get_all() voor PHP validatie'',
       ''- SECURITY: Ed25519 signed auto-updates via Vercel (vervangt unsigned GitHub releases)'',
       ''- QUALITY: PHP 7.4+ type declarations op alle functies'',
       ''- i18n: User-facing strings gewrapped in __()/_e()'']),
    (''3.1.3'', [LF] @ unlines
      [''### 3.1.3 - Security Fix'',
       ''- SECURITY: exec() removed from snippet security scanner'',
       ''- Plugin URI header added'']),
    (''3.1.2'', [LF] @ unlines
      [''### 3.1.2 - Bug Fixes'',
       ''- Various bug fixes and improvements'']),
    (''3.0.0'', [LF] @ unlines
      [''### 3.0.0 - Site Builder Endpoints'',
       ''- NEW: Divi Builder endpoints (build, parse, validate, modules)'',
       ''- NEW: Theme Builder endpoints (list, create, update, assign)'',
       ''- NEW: Page endpoints (create, clone, list)'',
       ''- NEW: Menu endpoints (create, items/add, assign, mega-menu)'',
       ''- NEW: Media endpoints (upload, search)'',
       ''- NEW: Forms endpoints (create, update, embed)'',
       ''- NEW: Child Theme endpoints (functions append/remove)'',
       ''- NEW: FacetWP endpoints (facet create, template)'',
       ''- NEW: Taxonomy endpoints (list, create-term, assign)''])]"

definition dict_get :: "(string \<times> string) list \<Rightarrow> string \<Rightarrow> string \<Rightarrow> string" where
  \<comment> \<open>\<^verbatim>\<open>d.get(k, default)\<close>\<close>
  "dict_get d k dflt = (case map_of d k of None \<Rightarrow> dflt | Some v \<Rightarrow> v)"

subsection \<open>Exceptions\<close>

text \<open>
  Of an exception the model keeps the class and, for the classes that carry one, the exit
  status, the file name or the error number; messages are not kept.  \<^verbatim>\<open>ValueError\<close> is
  \<^verbatim>\<open>nacl.exceptions.ValueError\<close>.
\<close>

datatype exn =
    SystemExit nat
  | FileNotFoundError string
  | NotADirectoryError string
  | IsADirectoryError string
  | PermissionError string
  | OSError nat
  | UnicodeDecodeError
  | BinasciiError
  | ValueError

subsection \<open>Library: \<^verbatim>\<open>base64\<close>, as \<^verbatim>\<open>nacl.encoding.Base64Encoder\<close> calls it\<close>

definition b64_alphabet :: string where
  "b64_alphabet = ''ABCDEFGHIJKLMNOPQRSTUVWXYZabcdefghijklmnopqrstuvwxyz0123456789+/''"

definition b64_char :: "nat \<Rightarrow> char" where
  "b64_char n = b64_alphabet ! (n mod 64)"

fun index_of :: "char \<Rightarrow> string \<Rightarrow> nat \<Rightarrow> nat option" where
  "index_of c [] n = None"
| "index_of c (x # xs) n = (if c = x then Some n else index_of c xs (Suc n))"

definition b64_value :: "char \<Rightarrow> nat option" where
  \<comment> \<open>the table \<^verbatim>\<open>table_a2b_base64\<close>: the six bits of an alphabet character\<close>
  "b64_value c = index_of c b64_alphabet 0"

fun b64encode :: "string \<Rightarrow> string" where
  "b64encode (a # b # c # rest) =
     (let x = (of_char a :: nat); y = (of_char b :: nat); z = (of_char c :: nat)
      in [b64_char (x div 4), b64_char (x mod 4 * 16 + y div 16),
          b64_char (y mod 16 * 4 + z div 64), b64_char (z mod 64)] @ b64encode rest)"
| "b64encode [a, b] =
     (let x = (of_char a :: nat); y = (of_char b :: nat)
      in [b64_char (x div 4), b64_char (x mod 4 * 16 + y div 16),
          b64_char (y mod 16 * 4), CHR ''=''])"
| "b64encode [a] =
     (let x = (of_char a :: nat)
      in [b64_char (x div 4), b64_char (x mod 4 * 16), CHR ''='', CHR ''=''])"
| "b64encode [] = []"

text \<open>
  \<^verbatim>\<open>base64.b64decode(s)\<close> with its default \<^verbatim>\<open>validate=False\<close> is
  \<^verbatim>\<open>binascii.a2b_base64\<close> outside strict mode: characters outside the alphabet are
  skipped, a pad character that completes a quad ends the input, and leftover data
  characters are an error (\<^verbatim>\<open>binascii.Error\<close>, whether one character is left over or the
  padding is short).  The state is the position in the quad, the bits left over
  from the previous character, the pad characters seen in a row and the output so far.
\<close>

fun a2b_base64 :: "nat \<Rightarrow> nat \<Rightarrow> nat \<Rightarrow> string \<Rightarrow> string \<Rightarrow> exn + string" where
  "a2b_base64 quad_pos leftchar pads out [] =
     (if quad_pos \<noteq> 0 then Inl BinasciiError else Inr out)"
| "a2b_base64 quad_pos leftchar pads out (c # cs) =
     (if c = CHR ''='' then
        (if quad_pos \<ge> 2 \<and> quad_pos + (pads + 1) \<ge> 4 then Inr out
         else a2b_base64 quad_pos leftchar (if quad_pos \<ge> 2 then pads + 1 else pads) out cs)
      else
        (case b64_value c of
           None \<Rightarrow> a2b_base64 quad_pos leftchar pads out cs
         | Some v \<Rightarrow>
             (if quad_pos = 0 then a2b_base64 1 v 0 out cs
              else if quad_pos = 1 then
                a2b_base64 2 (v mod 16) 0 (out @ [char_of (leftchar * 4 + v div 16)]) cs
              else if quad_pos = 2 then
                a2b_base64 3 (v mod 4) 0 (out @ [char_of (leftchar * 16 + v div 4)]) cs
              else
                a2b_base64 0 0 0 (out @ [char_of (leftchar * 64 + v)]) cs)))"

definition b64decode :: "string \<Rightarrow> exn + string" where
  "b64decode s = a2b_base64 0 0 0 [] s"

subsection \<open>Library: \<^verbatim>\<open>nacl.signing\<close>\<close>

text \<open>
  A signing key is its 32-byte seed.  The Ed25519 primitives of libsodium are not part of
  the script; they are parameters of the model, with the interface of \<^verbatim>\<open>nacl.bindings\<close>:
  \<^verbatim>\<open>crypto_sign_seed_keypair\<close> gives the public key and the secret key of a seed, and
  \<^verbatim>\<open>crypto_sign\<close> gives, from a message and a secret key, the signed message, whose first
  64 bytes are the signature.
\<close>

datatype signing_key = SigningKey (seed: string)

record nacl =
  crypto_sign_seed_keypair :: "string \<Rightarrow> string \<times> string"
  crypto_sign :: "string \<Rightarrow> string \<Rightarrow> string"

definition SigningKey_b64 :: "string \<Rightarrow> exn + signing_key" where
  \<comment> \<open>\<^verbatim>\<open>SigningKey(data, encoder=Base64Encoder)\<close>\<close>
  "SigningKey_b64 data =
     (case b64decode data of
        Inl e \<Rightarrow> Inl e
      | Inr sd \<Rightarrow>
          if length sd \<noteq> 32 then Inl ValueError else Inr (SigningKey sd))"

definition verify_key_b64 :: "nacl \<Rightarrow> signing_key \<Rightarrow> string" where
  \<comment> \<open>\<^verbatim>\<open>signing_key.verify_key.encode(encoder=Base64Encoder).decode()\<close>\<close>
  "verify_key_b64 L k = decode (b64encode (fst (crypto_sign_seed_keypair L (seed k))))"

definition signing_key_b64 :: "signing_key \<Rightarrow> string" where
  \<comment> \<open>\<^verbatim>\<open>signing_key.encode(encoder=Base64Encoder).decode()\<close>\<close>
  "signing_key_b64 k = decode (b64encode (seed k))"

definition sign_b64 :: "nacl \<Rightarrow> signing_key \<Rightarrow> string \<Rightarrow> string" where
  \<comment> \<open>\<^verbatim>\<open>signing_key.sign(msg, encoder=Base64Encoder).signature.decode()\<close>\<close>
  "sign_b64 L k msg =
     decode (b64encode (take 64 (crypto_sign L msg (snd (crypto_sign_seed_keypair L (seed k))))))"

subsection \<open>Library: \<^verbatim>\<open>hashlib.sha256\<close> (FIPS 180-4)\<close>

text \<open>
  The digest is computed on 32-bit words; \<open>+\<close> on \<^typ>\<open>32 word\<close> is addition modulo
  \<open>2^32\<close>.
\<close>

type_synonym w32 = "32 word"

type_synonym hstate = "w32 \<times> w32 \<times> w32 \<times> w32 \<times> w32 \<times> w32 \<times> w32 \<times> w32"

definition K256 :: "w32 list" where
  \<comment> \<open>the sixty-four round constants, in decimal\<close>
  "K256 =
   [1116352408, 1899447441, 3049323471, 3921009573, 961987163, 1508970993,
    2453635748, 2870763221, 3624381080, 310598401, 607225278, 1426881987,
    1925078388, 2162078206, 2614888103, 3248222580, 3835390401, 4022224774,
    264347078, 604807628, 770255983, 1249150122, 1555081692, 1996064986,
    2554220882, 2821834349, 2952996808, 3210313671, 3336571891, 3584528711,
    113926993, 338241895, 666307205, 773529912, 1294757372, 1396182291,
    1695183700, 1986661051, 2177026350, 2456956037, 2730485921, 2820302411,
    3259730800, 3345764771, 3516065817, 3600352804, 4094571909, 275423344,
    430227734, 506948616, 659060556, 883997877, 958139571, 1322822218,
    1537002063, 1747873779, 1955562222, 2024104815, 2227730452, 2361852424,
    2428436474, 2756734187, 3204031479, 3329325298]"

definition H256 :: hstate where
  \<comment> \<open>the initial hash value, in decimal\<close>
  "H256 = (1779033703, 3144134277, 1013904242, 2773480762,
           1359893119, 2600822924, 528734635, 1541459225)"

definition rotr :: "nat \<Rightarrow> w32 \<Rightarrow> w32" where
  "rotr n x = drop_bit n x OR push_bit (32 - n) x"

definition Ch :: "w32 \<Rightarrow> w32 \<Rightarrow> w32 \<Rightarrow> w32" where
  "Ch x y z = (x AND y) XOR (NOT x AND z)"

definition Maj :: "w32 \<Rightarrow> w32 \<Rightarrow> w32 \<Rightarrow> w32" where
  "Maj x y z = (x AND y) XOR (x AND z) XOR (y AND z)"

definition bsig0 :: "w32 \<Rightarrow> w32" where
  "bsig0 x = rotr 2 x XOR rotr 13 x XOR rotr 22 x"

definition bsig1 :: "w32 \<Rightarrow> w32" where
  "bsig1 x = rotr 6 x XOR rotr 11 x XOR rotr 25 x"

definition ssig0 :: "w32 \<Rightarrow> w32" where
  "ssig0 x = rotr 7 x XOR rotr 18 x XOR drop_bit 3 x"

definition ssig1 :: "w32 \<Rightarrow> w32" where
  "ssig1 x = rotr 17 x XOR rotr 19 x XOR drop_bit 10 x"

text \<open>
  The message schedule, produced from a window of the last sixteen words (oldest first).
\<close>

fun schedule :: "nat \<Rightarrow> w32 list \<Rightarrow> w32 list" where
  "schedule 0 win = []"
| "schedule (Suc n) win =
     hd win # schedule n (tl win @ [ssig1 (win ! 14) + win ! 9 + ssig0 (win ! 1) + win ! 0])"

definition round_step :: "hstate \<Rightarrow> w32 \<times> w32 \<Rightarrow> hstate" where
  "round_step st kw =
     (case st of (a, b, c, d, e, f, g, h) \<Rightarrow>
        let t1 = h + bsig1 e + Ch e f g + fst kw + snd kw;
            t2 = bsig0 a + Maj a b c
        in (t1 + t2, a, b, c, d + t1, e, f, g))"

definition add_state :: "hstate \<Rightarrow> hstate \<Rightarrow> hstate" where
  "add_state s t =
     (case s of (a, b, c, d, e, f, g, h) \<Rightarrow>
      case t of (a', b', c', d', e', f', g', h') \<Rightarrow>
        (a + a', b + b', c + c', d + d', e + e', f + f', g + g', h + h'))"

definition be32 :: "string \<Rightarrow> w32" where
  "be32 bs = foldl (\<lambda>acc b. push_bit 8 acc OR of_nat (of_char b)) 0 (take 4 bs)"

fun words_of :: "nat \<Rightarrow> string \<Rightarrow> w32 list" where
  "words_of 0 bs = []"
| "words_of (Suc n) bs = be32 bs # words_of n (drop 4 bs)"

definition compress :: "hstate \<Rightarrow> string \<Rightarrow> hstate" where
  "compress st block =
     add_state st (foldl round_step st (zip K256 (schedule 64 (words_of 16 block))))"

fun be_bytes :: "nat \<Rightarrow> nat \<Rightarrow> string" where
  "be_bytes 0 v = []"
| "be_bytes (Suc n) v = be_bytes n (v div 256) @ [char_of (v mod 256)]"

definition sha_pad :: "string \<Rightarrow> string" where
  "sha_pad m =
     m @ [char_of (0x80 :: nat)] @
     replicate ((119 - length m mod 64) mod 64) (char_of (0 :: nat)) @
     be_bytes 8 (8 * length m)"

fun blocks :: "nat \<Rightarrow> hstate \<Rightarrow> string \<Rightarrow> hstate" where
  "blocks 0 st bs = st"
| "blocks (Suc n) st bs = blocks n (compress st (take 64 bs)) (drop 64 bs)"

definition sha256_words :: "string \<Rightarrow> w32 list" where
  "sha256_words m =
     (let p = sha_pad m
      in case blocks (length p div 64) H256 p of
           (a, b, c, d, e, f, g, h) \<Rightarrow> [a, b, c, d, e, f, g, h])"

definition word_bytes :: "w32 \<Rightarrow> string" where
  "word_bytes w = map (\<lambda>k. char_of (unat (drop_bit k w AND 0xFF))) [24, 16, 8, 0]"

definition sha256_digest :: "string \<Rightarrow> string" where
  "sha256_digest m = concat (map word_bytes (sha256_words m))"

definition hexlify :: "string \<Rightarrow> string" where
  "hexlify bs =
     concat (map (\<lambda>b. [digit_char (of_char b div 16), digit_char (of_char b mod 16)]) bs)"

text \<open>
  A hash object holds what it has been fed: \<^verbatim>\<open>update\<close> appends, and the digest is the
  digest of the concatenation of all updates.
\<close>

datatype hasher = Hasher (fed: string)

definition hashlib_sha256 :: hasher where
  "hashlib_sha256 = Hasher []"

definition update :: "hasher \<Rightarrow> string \<Rightarrow> hasher" where
  "update h chunk = Hasher (fed h @ chunk)"

definition hexdigest :: "hasher \<Rightarrow> string" where
  "hexdigest h = hexlify (sha256_digest (fed h))"

subsection \<open>Library: \<^verbatim>\<open>json.dumps\<close> of a dictionary of strings\<close>

text \<open>
  With the default \<^verbatim>\<open>ensure_ascii\<close>, a string is written between double quotes with
  the quote and the backslash escaped, the short escapes for backspace, form feed, LF, CR
  and tab, and \<^verbatim>\<open>\uXXXX\<close> for every other character outside \<^verbatim>\<open>' '\<close> to \<^verbatim>\<open>'~'\<close>.
  With \<^verbatim>\<open>indent=2\<close> each member is on a line of its own behind two spaces, in the
  dictionary's insertion order.
\<close>

definition json_escape_char :: "char \<Rightarrow> string" where
  "json_escape_char c =
     (if c = CHR 0x22 then [CHR 0x5C, CHR 0x22]
      else if c = CHR 0x5C then [CHR 0x5C, CHR 0x5C]
      else if c = CHR 0x0A then [CHR 0x5C, CHR ''n'']
      else if c = CHR 0x0D then [CHR 0x5C, CHR ''r'']
      else if c = CHR 0x09 then [CHR 0x5C, CHR ''t'']
      else if c = CHR 0x08 then [CHR 0x5C, CHR ''b'']
      else if c = CHR 0x0C then [CHR 0x5C, CHR ''f'']
      else if (of_char c :: nat) < 0x20 \<or> (of_char c :: nat) > 0x7E
        then [CHR 0x5C, CHR ''u'', CHR ''0'', CHR ''0'',
              digit_char (of_char c div 16), digit_char (of_char c mod 16)]
      else [c])"

definition json_string :: "string \<Rightarrow> string" where
  "json_string s = [CHR 0x22] @ concat (map json_escape_char s) @ [CHR 0x22]"

definition json_member :: "string \<times> string \<Rightarrow> string" where
  "json_member kv = ''  '' @ json_string (fst kv) @ '': '' @ json_string (snd kv)"

fun join_members :: "string list \<Rightarrow> string" where
  "join_members [] = []"
| "join_members [m] = m"
| "join_members (m # n # ms) = m @ '','' @ [LF] @ join_members (n # ms)"

definition json_dumps :: "(string \<times> string) list \<Rightarrow> string" where
  \<comment> \<open>\<^verbatim>\<open>json.dumps(d, indent=2)\<close>\<close>
  "json_dumps d =
     (if d = [] then ''{}''
      else ''{'' @ [LF] @ join_members (map json_member d) @ [LF] @ ''}'')"

subsection \<open>The world the script runs in\<close>

text \<open>
  The file tree maps a path to what the operating system finds there: nothing
  (\<^verbatim>\<open>ENOENT\<close>), a directory, a regular file, or a failure of the lookup itself, which every
  system call on the path then reports: a directory on the way may not be searched
  (\<^verbatim>\<open>EACCES\<close>), a component on the way is not a directory (\<^verbatim>\<open>ENOTDIR\<close>), there are too many
  symbolic links (\<^verbatim>\<open>ELOOP\<close>), or a name is too long (\<^verbatim>\<open>ENAMETOOLONG\<close>).  A file is its
  content, whether the process may open it, and, when the device is faulty, the offset
  from which reading it fails.  Other kinds of file (pipes, devices) are not modelled.

  The world holds the file tree, the location of the script (\<^verbatim>\<open>__file__\<close>), the operating
  system's random bytes and how many have been drawn, the UTC clock, the two output
  channels, the trace of system calls made, and what the interpreter writes on the
  diagnostic channel for an uncaught exception.  Every operation of the script returns the
  world it leaves behind.
\<close>

datatype lookup_error = EACCES | ENOTDIR | ELOOP | ENAMETOOLONG

datatype node =
    Directory
  | File (content: string) (readable: bool) (fault: "nat option")
  | Unreachable lookup_error

fun os_error :: "lookup_error \<Rightarrow> string \<Rightarrow> exn" where
  \<comment> \<open>the subclass of \<^verbatim>\<open>OSError\<close> Python raises for the error number\<close>
  "os_error EACCES p = PermissionError p"
| "os_error ENOTDIR p = NotADirectoryError p"
| "os_error ELOOP p = OSError 40"
| "os_error ENAMETOOLONG p = OSError 36"

datatype event = Stat string | OpenRead string | Urandom nat | ReadClock

record datetime =
  year :: nat
  month :: nat
  day :: nat
  hour :: nat
  minute :: nat
  second :: nat

record world =
  files :: "string \<Rightarrow> node option"
  script_file :: string
  random_source :: "nat \<Rightarrow> char"
  random_pos :: nat
  utc_now :: datetime
  stdout :: string
  stderr :: string
  trace :: "event list"
  traceback :: "exn \<Rightarrow> string"

definition print_out :: "string \<Rightarrow> world \<Rightarrow> world" where
  \<comment> \<open>\<^verbatim>\<open>print(s)\<close>\<close>
  "print_out s w = w\<lparr>stdout := print_line (stdout w) s\<rparr>"

definition print_err :: "string \<Rightarrow> world \<Rightarrow> world" where
  \<comment> \<open>\<^verbatim>\<open>print(s, file=sys.stderr)\<close>\<close>
  "print_err s w = w\<lparr>stderr := print_line (stderr w) s\<rparr>"

definition log_event :: "event \<Rightarrow> world \<Rightarrow> world" where
  "log_event e w = w\<lparr>trace := trace w @ [e]\<rparr>"

definition path_exists :: "path \<Rightarrow> world \<Rightarrow> (exn + bool) \<times> world" where
  \<comment> \<open>\<^verbatim>\<open>p.exists()\<close>: true of directories as well; of the errors of \<^verbatim>\<open>stat\<close> it turns
      \<^verbatim>\<open>ENOENT\<close>, \<^verbatim>\<open>ENOTDIR\<close>, \<^verbatim>\<open>EBADF\<close> and \<^verbatim>\<open>ELOOP\<close> into \<^verbatim>\<open>False\<close> and raises the others\<close>
  "path_exists p w =
     (case files w (path_str p) of
        None \<Rightarrow> Inr False
      | Some Directory \<Rightarrow> Inr True
      | Some (File c r f) \<Rightarrow> Inr True
      | Some (Unreachable e) \<Rightarrow>
          if e = ENOTDIR \<or> e = ELOOP then Inr False else Inl (os_error e (path_str p)),
      log_event (Stat (path_str p)) w)"

text \<open>An open file: what it holds, where reading starts to fail, the read position.\<close>

datatype handle = Handle (data: string) (bad_from: "nat option") (pos: nat)

definition open_read :: "path \<Rightarrow> world \<Rightarrow> (exn + handle) \<times> world" where
  \<comment> \<open>\<^verbatim>\<open>open(p, 'r')\<close> and \<^verbatim>\<open>open(p, 'rb')\<close>\<close>
  "open_read p w =
     (case files w (path_str p) of
        None \<Rightarrow> Inl (FileNotFoundError (path_str p))
      | Some Directory \<Rightarrow> Inl (IsADirectoryError (path_str p))
      | Some (File c r f) \<Rightarrow>
          if r then Inr (Handle c f 0) else Inl (PermissionError (path_str p))
      | Some (Unreachable e) \<Rightarrow> Inl (os_error e (path_str p)),
      log_event (OpenRead (path_str p)) w)"

definition f_read :: "nat \<Rightarrow> handle \<Rightarrow> exn + string \<times> handle" where
  \<comment> \<open>\<^verbatim>\<open>f.read(n)\<close>: up to \<open>n\<close> bytes from the position, fewer only at the end of the file;
      \<^verbatim>\<open>EIO\<close> when the read reaches the faulty part of the device\<close>
  "f_read n h =
     (let chunk = take n (drop (pos h) (data h))
      in case bad_from h of
           None \<Rightarrow> Inr (chunk, Handle (data h) (bad_from h) (pos h + length chunk))
         | Some k \<Rightarrow>
             if k < pos h + length chunk then Inl (OSError 5)
             else Inr (chunk, Handle (data h) (bad_from h) (pos h + length chunk)))"

definition f_read_all :: "handle \<Rightarrow> exn + string \<times> handle" where
  \<comment> \<open>\<^verbatim>\<open>f.read()\<close>\<close>
  "f_read_all h = f_read (length (data h) - pos h) h"

definition urandom :: "nat \<Rightarrow> world \<Rightarrow> string \<times> world" where
  \<comment> \<open>\<^verbatim>\<open>nacl.utils.random(n)\<close>\<close>
  "urandom n w =
     (map (random_source w) [random_pos w ..< random_pos w + n],
      log_event (Urandom n) (w\<lparr>random_pos := random_pos w + n\<rparr>))"

definition strftime :: "datetime \<Rightarrow> string" where
  \<comment> \<open>\<^verbatim>\<open>strftime("%Y-%m-%dT%H:%M:%SZ")\<close>, for the four-digit years\<close>
  "strftime t =
     pad4 (year t) @ ''-'' @ pad2 (month t) @ ''-'' @ pad2 (day t) @ ''T'' @
     pad2 (hour t) @ '':'' @ pad2 (minute t) @ '':'' @ pad2 (second t) @ ''Z''"

definition now_utc :: "world \<Rightarrow> datetime \<times> world" where
  \<comment> \<open>\<^verbatim>\<open>datetime.now(timezone.utc)\<close>\<close>
  "now_utc w = (utc_now w, log_event ReadClock w)"

subsection \<open>Text files\<close>

text \<open>
  A file opened with \<^verbatim>\<open>open(p, 'r')\<close> is read as text: the bytes are decoded as UTF-8,
  strictly (\<^verbatim>\<open>UnicodeDecodeError\<close> on an invalid sequence, an overlong form or a
  surrogate), and the line endings CR LF and CR become LF.  The text is the list
  of its code points; \<^verbatim>\<open>str.encode()\<close> writes it back as UTF-8.
\<close>

type_synonym str = "nat list"

definition continuation :: "nat \<Rightarrow> bool" where
  "continuation b = (128 \<le> b \<and> b \<le> 191)"

fun utf8_decode :: "nat list \<Rightarrow> str option" where
  "utf8_decode [] = Some []"
| "utf8_decode (b # bs) =
     (if b < 128 then map_option (Cons b) (utf8_decode bs)
      else if 194 \<le> b \<and> b \<le> 223 then
        (case bs of
           c1 # r \<Rightarrow>
             if continuation c1
             then map_option (Cons ((b - 192) * 64 + (c1 - 128))) (utf8_decode r)
             else None
         | _ \<Rightarrow> None)
      else if 224 \<le> b \<and> b \<le> 239 then
        (case bs of
           c1 # c2 # r \<Rightarrow>
             if (if b = 224 then 160 else 128) \<le> c1 \<and> c1 \<le> (if b = 237 then 159 else 191)
                \<and> continuation c2
             then map_option (Cons ((b - 224) * 4096 + (c1 - 128) * 64 + (c2 - 128)))
                    (utf8_decode r)
             else None
         | _ \<Rightarrow> None)
      else if 240 \<le> b \<and> b \<le> 244 then
        (case bs of
           c1 # c2 # c3 # r \<Rightarrow>
             if (if b = 240 then 144 else 128) \<le> c1 \<and> c1 \<le> (if b = 244 then 143 else 191)
                \<and> continuation c2 \<and> continuation c3
             then map_option
                    (Cons ((b - 240) * 262144 + (c1 - 128) * 4096 + (c2 - 128) * 64 + (c3 - 128)))
                    (utf8_decode r)
             else None
         | _ \<Rightarrow> None)
      else None)"

fun universal_newlines :: "bool \<Rightarrow> str \<Rightarrow> str" where
  \<comment> \<open>the flag says that the previous character was \<^verbatim>\<open>\r\<close>\<close>
  "universal_newlines after_cr [] = []"
| "universal_newlines after_cr (c # cs) =
     (if c = 13 then 10 # universal_newlines True cs
      else if c = 10 \<and> after_cr then universal_newlines False cs
      else c # universal_newlines False cs)"

definition read_text :: "string \<Rightarrow> exn + str" where
  \<comment> \<open>what \<^verbatim>\<open>f.read()\<close> makes of the bytes of a text file\<close>
  "read_text raw =
     (case utf8_decode (map of_char raw) of
        None \<Rightarrow> Inl UnicodeDecodeError
      | Some t \<Rightarrow> Inr (universal_newlines False t))"

definition strip_text :: "str \<Rightarrow> str" where
  \<comment> \<open>\<^verbatim>\<open>str.strip()\<close>\<close>
  "strip_text t = rev (dropWhile isspace_cp (rev (dropWhile isspace_cp t)))"

definition utf8_encode :: "nat \<Rightarrow> nat list" where
  "utf8_encode c =
     (if c < 128 then [c]
      else if c < 2048 then [192 + c div 64, 128 + c mod 64]
      else if c < 65536 then [224 + c div 4096, 128 + c div 64 mod 64, 128 + c mod 64]
      else [240 + c div 262144, 128 + c div 4096 mod 64, 128 + c div 64 mod 64, 128 + c mod 64])"

definition str_encode :: "str \<Rightarrow> string" where
  \<comment> \<open>\<^verbatim>\<open>str.encode()\<close>\<close>
  "str_encode t = map char_of (concat (map utf8_encode t))"

subsection \<open>\<^verbatim>\<open>generate_key_pair\<close> (lines 68 to 84)\<close>

definition generate_key_pair :: "nacl \<Rightarrow> world \<Rightarrow> (exn + signing_key) \<times> world" where
  "generate_key_pair L w =
     (let (sd, w1) = urandom 32 w;
          signing_key = SigningKey sd;
          private_key_b64 = signing_key_b64 signing_key;
          public_key_b64 = verify_key_b64 L signing_key;
          w2 = print_err ''=== NEW KEY PAIR GENERATED ==='' w1;
          w3 = print_err (''Key ID: '' @ KEY_ID) w2;
          w4 = print_err [] w3;
          w5 = print_err (''PRIVATE KEY (save to '' @
                 path_str (SIGNING_KEY_PATH (script_file w)) @ ''):'') w4;
          w6 = print_err private_key_b64 w5;
          w7 = print_err [] w6;
          w8 = print_err ''PUBLIC KEY (add to class-updater.php):'' w7;
          w9 = print_err ([CHR 0x27] @ KEY_ID @ [CHR 0x27] @ '' => '' @
                 [CHR 0x27] @ public_key_b64 @ [CHR 0x27] @ '','') w8;
          w10 = print_err [] w9
      in (Inr signing_key, w10))"

subsection \<open>\<^verbatim>\<open>load_signing_key\<close> (lines 87 to 97)\<close>

definition load_signing_key :: "nacl \<Rightarrow> world \<Rightarrow> (exn + signing_key) \<times> world" where
  "load_signing_key L w =
     (let key_path = SIGNING_KEY_PATH (script_file w)
      in case path_exists key_path w of
           (Inl e, w1) \<Rightarrow> (Inl e, w1)
         | (Inr present, w1) \<Rightarrow>
             if \<not> present then
               (let w2 = print_err (''No signing key found at '' @ path_str key_path) w1;
                    w3 = print_err ''Generating new key pair...'' w2
                in generate_key_pair L w3)
             else
               (case open_read key_path w1 of
                  (Inl e, w2) \<Rightarrow> (Inl e, w2)
                | (Inr f, w2) \<Rightarrow>
                    (case f_read_all f of
                       Inl e \<Rightarrow> (Inl e, w2)
                     | Inr (raw, f') \<Rightarrow>
                         (case read_text raw of
                            Inl e \<Rightarrow> (Inl e, w2)
                          | Inr contents \<Rightarrow>
                              (let key_b64 = strip_text contents
                               in (SigningKey_b64 (str_encode key_b64), w2))))))"

subsection \<open>\<^verbatim>\<open>compute_sha256\<close> (lines 100 to 106)\<close>

text \<open>
  The loop \<^verbatim>\<open>for chunk in iter(lambda: f.read(8192), b'')\<close> reads until a read returns
  nothing.  The chunk size is a parameter here; the script fixes it to 8192.
\<close>

function hash_chunks :: "nat \<Rightarrow> handle \<Rightarrow> hasher \<Rightarrow> exn + hasher" where
  "hash_chunks n f sha256 =
     (case f_read n f of
        Inl e \<Rightarrow> Inl e
      | Inr (chunk, f') \<Rightarrow>
          if chunk = [] then Inr sha256 else hash_chunks n f' (update sha256 chunk))"
  by pat_completeness auto
termination
proof (relation "measure (\<lambda>(n, f, sha256). length (data f) - pos f)")
  show "wf (measure (\<lambda>(n, f, sha256). length (data f) - pos f))"
    by simp
next
  fix n :: nat and f :: handle and sha256 :: hasher and x2 :: "string \<times> handle"
    and chunk :: string and f' :: handle
  assume rd: "f_read n f = Inr x2" and x2: "(chunk, f') = x2" and ne: "chunk \<noteq> []"
  from rd x2 have c: "chunk = take n (drop (pos f) (data f))"
    and f': "f' = Handle (data f) (bad_from f) (pos f + length chunk)"
    by (auto simp: f_read_def Let_def split: option.splits if_splits)
  from c ne have "pos f < length (data f)"
    by (cases "pos f < length (data f)") auto
  with c ne f' show "((n, f', update sha256 chunk), (n, f, sha256))
      \<in> measure (\<lambda>(n, f, sha256). length (data f) - pos f)"
    by (cases chunk) auto
qed

declare hash_chunks.simps [simp del]

definition compute_sha256_chunked :: "nat \<Rightarrow> path \<Rightarrow> world \<Rightarrow> (exn + string) \<times> world" where
  "compute_sha256_chunked n file_path w =
     (case open_read file_path w of
        (Inl e, w1) \<Rightarrow> (Inl e, w1)
      | (Inr f, w1) \<Rightarrow>
          (case hash_chunks n f hashlib_sha256 of
             Inl e \<Rightarrow> (Inl e, w1)
           | Inr sha256 \<Rightarrow> (Inr (hexdigest sha256), w1)))"

definition compute_sha256 :: "path \<Rightarrow> world \<Rightarrow> (exn + string) \<times> world" where
  "compute_sha256 file_path w = compute_sha256_chunked 8192 file_path w"

subsection \<open>Canonical message (line 131)\<close>

definition canonical_message :: "string \<Rightarrow> string \<Rightarrow> string \<Rightarrow> string \<Rightarrow> string" where
  "canonical_message version download_url sha256 released_at =
     ''version='' @ version @ [LF] @ ''download_url='' @ download_url @ [LF] @
     ''sha256='' @ sha256 @ [LF] @ ''released_at='' @ released_at @ [LF]"

subsection \<open>\<^verbatim>\<open>sign_release\<close> (lines 109 to 164)\<close>

definition update_info ::
  "string \<Rightarrow> string \<Rightarrow> string \<Rightarrow> string \<Rightarrow> string \<Rightarrow> string \<Rightarrow> (string \<times> string) list" where
  \<comment> \<open>the dictionary of lines 140 to 153, in insertion order\<close>
  "update_info version download_url sha256 released_at signature changelog =
     [(''name'', ''LOIQ WordPress Agent''),
      (''version'', version),
      (''download_url'', download_url),
      (''homepage'', ''https://loiq.nl''),
      (''sha256'', sha256),
      (''released_at'', released_at),
      (''key_id'', KEY_ID),
      (''signature'', signature),
      (''changelog'', strip changelog),
      (''requires'', ''5.8''),
      (''requires_php'', ''7.4''),
      (''tested'', ''6.7'')]"

definition print_summary :: "string \<Rightarrow> string \<Rightarrow> string \<Rightarrow> string \<Rightarrow> world \<Rightarrow> world" where
  \<comment> \<open>lines 159 to 164\<close>
  "print_summary version sha256 public_key_b64 released_at w =
     print_err (''Released: '' @ released_at)
       (print_err (''Public Key: '' @ public_key_b64)
         (print_err (''Key ID: '' @ KEY_ID)
           (print_err (''SHA-256: '' @ sha256)
             (print_err (''Version: '' @ version)
               (print_err ([LF] @ ''=== RELEASE SIGNED ==='') w)))))"

definition sign_release :: "nacl \<Rightarrow> string \<Rightarrow> string \<Rightarrow> world \<Rightarrow> (exn + unit) \<times> world" where
  "sign_release L version zip_arg w =
     (let zip_path = mk_path zip_arg
      in case path_exists zip_path w of
           (Inl e, w1) \<Rightarrow> (Inl e, w1)
         | (Inr present, w1) \<Rightarrow>
             if \<not> present then
               (Inl (SystemExit 1),
                print_err (''Error: ZIP file not found: '' @ path_str zip_path) w1)
             else
               (case load_signing_key L w1 of
                  (Inl e, w2) \<Rightarrow> (Inl e, w2)
                | (Inr signing_key, w2) \<Rightarrow>
                    (let public_key_b64 = verify_key_b64 L signing_key
                     in case compute_sha256 zip_path w2 of
                          (Inl e, w3) \<Rightarrow> (Inl e, w3)
                        | (Inr sha256, w3) \<Rightarrow>
                            (let download_url = DOWNLOAD_BASE_URL @ ''/'' @ path_name zip_path;
                                 (t, w4) = now_utc w3;
                                 released_at = strftime t;
                                 message =
                                   canonical_message version download_url sha256 released_at;
                                 signature = sign_b64 L signing_key (encode message);
                                 changelog = dict_get CHANGELOG version
                                   (''### '' @ version @ [LF] @ ''- Bug fixes and improvements'');
                                 w5 = print_out (json_dumps (update_info version download_url
                                        sha256 released_at signature changelog)) w4
                             in (Inr (),
                                 print_summary version sha256 public_key_b64 released_at w5)))))"

subsection \<open>\<^verbatim>\<open>main\<close> and the process (lines 167 to 180)\<close>

definition main :: "nacl \<Rightarrow> string list \<Rightarrow> world \<Rightarrow> (exn + unit) \<times> world" where
  \<comment> \<open>the argument is \<^verbatim>\<open>sys.argv\<close>\<close>
  "main L argv w =
     (if length argv < 3 then
        (Inl (SystemExit 1),
         print_err ''Example: python3 sign-release.py 3.1.4 ../public/loiq-wp-agent.zip''
           (print_err ''Usage: python3 sign-release.py <version> <zip_path>'' w))
      else sign_release L (argv ! 1) (argv ! 2) w)"

text \<open>
  The interpreter ends the process: status 0 when \<^verbatim>\<open>main\<close> returns, the status of
  \<^verbatim>\<open>sys.exit\<close>, and status 1 behind a traceback on the diagnostic channel for any other
  exception, none of which the script catches.
\<close>

definition run :: "nacl \<Rightarrow> string list \<Rightarrow> world \<Rightarrow> nat \<times> world" where
  "run L argv w =
     (case main L argv w of
        (Inr u, w') \<Rightarrow> (0, w')
      | (Inl (SystemExit n), w') \<Rightarrow> (n, w')
      | (Inl e, w') \<Rightarrow> (1, w'\<lparr>stderr := stderr w' @ traceback w' e\<rparr>))"

subsection \<open>Handles that read to the end\<close>

text \<open>
  A handle reads without error when its position is inside the file and the device fault,
  if there is one, lies at or beyond the end of the file, where no read reaches it.
\<close>

definition sound_handle :: "handle \<Rightarrow> bool" where
  "sound_handle f =
     (pos f \<le> length (data f) \<and>
      (case bad_from f of None \<Rightarrow> True | Some k \<Rightarrow> length (data f) \<le> k))"

subsection \<open>What a key file loads to\<close>

text \<open>
  Lines 95 and 97 applied to the bytes of the key file: read as text, strip, encode,
  decode as Base64 and take the result as a seed.
\<close>

definition key_from_bytes :: "string \<Rightarrow> exn + signing_key" where
  "key_from_bytes raw =
     (case read_text raw of
        Inl e \<Rightarrow> Inl e
      | Inr contents \<Rightarrow> SigningKey_b64 (str_encode (strip_text contents)))"

subsection \<open>Example worlds\<close>

text \<open>
  Concrete inputs on which the properties below are exercised.  The library instance is a
  stand-in: every property is proved for all instances.
\<close>

definition stub_nacl :: nacl where
  "stub_nacl =
     \<lparr>crypto_sign_seed_keypair = (\<lambda>sd. (rev sd, sd @ rev sd)),
      crypto_sign = (\<lambda>msg sk. sk @ msg)\<rparr>"

definition bare_world :: world where
  "bare_world =
     \<lparr>files = (\<lambda>p. None), script_file = ''/opt/sign-release.py'',
      random_source = (\<lambda>i. CHR ''k''), random_pos = 0,
      utc_now = \<lparr>year = 2026, month = 1, day = 15, hour = 12, minute = 30, second = 0\<rparr>,
      stdout = [], stderr = [], trace = [],
      traceback = (\<lambda>e. ''Traceback (most recent call last):'' @ [LF])\<rparr>"

definition put_node :: "string \<Rightarrow> node \<Rightarrow> world \<Rightarrow> world" where
  "put_node p nd w = w\<lparr>files := (files w)(p \<mapsto> nd)\<rparr>"


definition directory_world :: world where
  "directory_world = put_node ''release'' Directory bare_world"

definition long_name :: string where
  "long_name = replicate 300 (CHR ''a'') @ ''.zip''"

definition long_name_world :: world where
  "long_name_world = put_node long_name (Unreachable ENAMETOOLONG) bare_world"

section \<open>Lemmas\<close>

lemma print_err_frame [simp]:
  "files (print_err s w) = files w"
  "script_file (print_err s w) = script_file w"
  "random_source (print_err s w) = random_source w"
  "random_pos (print_err s w) = random_pos w"
  "utc_now (print_err s w) = utc_now w"
  "stdout (print_err s w) = stdout w"
  "stderr (print_err s w) = stderr w @ s @ [LF]"
  "trace (print_err s w) = trace w"
  "traceback (print_err s w) = traceback w"
  by (simp_all add: print_err_def print_line_def)

lemma print_out_frame [simp]:
  "files (print_out s w) = files w"
  "script_file (print_out s w) = script_file w"
  "random_source (print_out s w) = random_source w"
  "random_pos (print_out s w) = random_pos w"
  "utc_now (print_out s w) = utc_now w"
  "stdout (print_out s w) = stdout w @ s @ [LF]"
  "stderr (print_out s w) = stderr w"
  "trace (print_out s w) = trace w"
  "traceback (print_out s w) = traceback w"
  by (simp_all add: print_out_def print_line_def)

lemma log_event_frame [simp]:
  "files (log_event e w) = files w"
  "script_file (log_event e w) = script_file w"
  "random_source (log_event e w) = random_source w"
  "random_pos (log_event e w) = random_pos w"
  "utc_now (log_event e w) = utc_now w"
  "stdout (log_event e w) = stdout w"
  "stderr (log_event e w) = stderr w"
  "trace (log_event e w) = trace w @ [e]"
  "traceback (log_event e w) = traceback w"
  by (simp_all add: log_event_def)

lemma print_summary_frame [simp]:
  "files (print_summary v s p r w) = files w"
  "script_file (print_summary v s p r w) = script_file w"
  "random_source (print_summary v s p r w) = random_source w"
  "random_pos (print_summary v s p r w) = random_pos w"
  "utc_now (print_summary v s p r w) = utc_now w"
  "stdout (print_summary v s p r w) = stdout w"
  "trace (print_summary v s p r w) = trace w"
  "traceback (print_summary v s p r w) = traceback w"
  by (simp_all add: print_summary_def)


lemma os_error_not_exit [simp]: "os_error e p \<noteq> SystemExit n"
  by (cases e) simp_all

lemma path_exists_world [simp]:
  "snd (path_exists p w) = log_event (Stat (path_str p)) w"
  by (simp add: path_exists_def)

lemma path_exists_files:
  "files w' = files w \<Longrightarrow> fst (path_exists p w') = fst (path_exists p w)"
  by (simp add: path_exists_def)

lemma path_exists_log_event [simp]:
  "fst (path_exists p (log_event e w)) = fst (path_exists p w)"
  by (simp add: path_exists_def)

lemma path_exists_cases:
  "fst (path_exists p w) =
     (case files w (path_str p) of
        None \<Rightarrow> Inr False
      | Some Directory \<Rightarrow> Inr True
      | Some (File c r f) \<Rightarrow> Inr True
      | Some (Unreachable e) \<Rightarrow>
          if e = ENOTDIR \<or> e = ELOOP then Inr False else Inl (os_error e (path_str p)))"
  by (simp add: path_exists_def)

lemma path_exists_error: "fst (path_exists p w) = Inl e \<Longrightarrow> e \<noteq> SystemExit n"
  by (auto simp: path_exists_def split: option.splits node.splits if_splits)

text \<open>Reading: a device fault at or beyond the end of the file is never met.\<close>

lemma f_read_sound:
  "sound_handle f \<Longrightarrow>
   f_read n f = Inr (take n (drop (pos f) (data f)),
                     Handle (data f) (bad_from f)
                       (pos f + length (take n (drop (pos f) (data f)))))"
  by (auto simp: sound_handle_def f_read_def Let_def split: option.splits)

lemma drop_length_take: "drop (length (take n ys)) ys = drop n ys"
  by (cases "n \<le> length ys") (simp_all add: min_def)

lemma take_drop_rest:
  "take n (drop p xs) @ drop (p + length (take n (drop p xs))) xs = drop p xs"
proof -
  have "drop (p + length (take n (drop p xs))) xs =
        drop (length (take n (drop p xs))) (drop p xs)"
    by (simp add: add.commute)
  also have "\<dots> = drop n (drop p xs)"
    by (rule drop_length_take)
  finally show ?thesis
    by (simp only: append_take_drop_id)
qed

lemma hash_chunks_sound:
  "0 < n \<Longrightarrow> sound_handle f \<Longrightarrow>
   hash_chunks n f h = Inr (Hasher (fed h @ drop (pos f) (data f)))"
proof (induction n f h rule: hash_chunks.induct)
  case (1 n f sha256)
  let ?rest = "drop (pos f) (data f)"
  let ?chunk = "take n ?rest"
  let ?f' = "Handle (data f) (bad_from f) (pos f + length ?chunk)"
  have rd: "f_read n f = Inr (?chunk, ?f')"
    using "1.prems" by (simp add: f_read_sound)
  show ?case
  proof (cases "?chunk = []")
    case True
    with "1.prems" have "?rest = []" by (cases ?rest) auto
    with True rd show ?thesis
      by (subst hash_chunks.simps) (cases sha256, simp)
  next
    case False
    have sf': "sound_handle ?f'"
      using "1.prems" by (auto simp: sound_handle_def min_def split: option.splits)
    have "hash_chunks n ?f' (update sha256 ?chunk) =
          Inr (Hasher (fed (update sha256 ?chunk) @ drop (pos ?f') (data ?f')))"
      using "1.IH" [OF rd refl False] "1.prems" sf' by simp
    then show ?thesis
      using rd False take_drop_rest [of n "pos f" "data f"]
      by (subst hash_chunks.simps) (simp add: update_def)
  qed
qed

lemma hash_chunks_fault:
  "0 < n \<Longrightarrow> bad_from f = Some k \<Longrightarrow> pos f \<le> k \<Longrightarrow> k < length (data f) \<Longrightarrow>
   hash_chunks n f h = Inl (OSError 5)"
proof (induction n f h rule: hash_chunks.induct)
  case (1 n f sha256)
  let ?chunk = "take n (drop (pos f) (data f))"
  let ?f' = "Handle (data f) (bad_from f) (pos f + length ?chunk)"
  show ?case
  proof (cases "k < pos f + length ?chunk")
    case True
    with "1.prems" have "f_read n f = Inl (OSError 5)"
      by (simp add: f_read_def Let_def)
    then show ?thesis
      by (subst hash_chunks.simps) simp
  next
    case False
    with "1.prems" have rd: "f_read n f = Inr (?chunk, ?f')"
      by (simp add: f_read_def Let_def)
    from "1.prems" have ne: "?chunk \<noteq> []"
      by simp
    have "hash_chunks n ?f' (update sha256 ?chunk) = Inl (OSError 5)"
      using "1.IH" [OF rd refl ne] "1.prems" False by simp
    with rd ne show ?thesis
      by (subst hash_chunks.simps) simp
  qed
qed

lemma compute_sha256_chunked_eq:
  "0 < n \<Longrightarrow>
   compute_sha256_chunked n p w =
     (case files w (path_str p) of
        None \<Rightarrow> Inl (FileNotFoundError (path_str p))
      | Some Directory \<Rightarrow> Inl (IsADirectoryError (path_str p))
      | Some (File c r f) \<Rightarrow>
          if \<not> r then Inl (PermissionError (path_str p))
          else if (case f of None \<Rightarrow> False | Some k \<Rightarrow> k < length c) then Inl (OSError 5)
          else Inr (hexlify (sha256_digest c))
      | Some (Unreachable e) \<Rightarrow> Inl (os_error e (path_str p)),
      log_event (OpenRead (path_str p)) w)"
  by (simp add: compute_sha256_chunked_def open_read_def hash_chunks_sound hash_chunks_fault
      sound_handle_def hashlib_sha256_def hexdigest_def not_less
      split: option.splits node.splits)

lemma compute_sha256_eq:
  "compute_sha256 p w =
     (case files w (path_str p) of
        None \<Rightarrow> Inl (FileNotFoundError (path_str p))
      | Some Directory \<Rightarrow> Inl (IsADirectoryError (path_str p))
      | Some (File c r f) \<Rightarrow>
          if \<not> r then Inl (PermissionError (path_str p))
          else if (case f of None \<Rightarrow> False | Some k \<Rightarrow> k < length c) then Inl (OSError 5)
          else Inr (hexlify (sha256_digest c))
      | Some (Unreachable e) \<Rightarrow> Inl (os_error e (path_str p)),
      log_event (OpenRead (path_str p)) w)"
  unfolding compute_sha256_def by (rule compute_sha256_chunked_eq) simp

lemma compute_sha256_world [simp]:
  "snd (compute_sha256 p w) = log_event (OpenRead (path_str p)) w"
  by (simp add: compute_sha256_eq)

lemma compute_sha256_files:
  "files w' = files w \<Longrightarrow> fst (compute_sha256 p w') = fst (compute_sha256 p w)"
  by (simp add: compute_sha256_eq)

lemma compute_sha256_error:
  "fst (compute_sha256 p w) = Inl e \<Longrightarrow> e \<noteq> SystemExit n"
  by (auto simp: compute_sha256_eq split: option.splits node.splits if_splits)

lemma digit_char_hex: "digit_char n \<in> set ''0123456789abcdef''"
proof -
  have "n mod 16 < length ''0123456789abcdef''" by simp
  then show ?thesis unfolding digit_char_def by (rule nth_mem)
qed

lemma hexlify_length: "length (hexlify bs) = 2 * length bs"
  by (induction bs) (simp_all add: hexlify_def)

lemma hexlify_lower: "set (hexlify bs) \<subseteq> set ''0123456789abcdef''"
  unfolding hexlify_def using digit_char_hex by auto

lemma sha256_digest_length: "length (sha256_digest m) = 32"
  by (simp add: sha256_digest_def sha256_words_def word_bytes_def Let_def split: prod.splits)

lemma generate_key_pair_result [simp]:
  "fst (generate_key_pair L w) =
     Inr (SigningKey (map (random_source w) [random_pos w ..< random_pos w + 32]))"
  by (simp add: generate_key_pair_def urandom_def Let_def)

lemma generate_key_pair_frame [simp]:
  "files (snd (generate_key_pair L w)) = files w"
  "script_file (snd (generate_key_pair L w)) = script_file w"
  "random_source (snd (generate_key_pair L w)) = random_source w"
  "random_pos (snd (generate_key_pair L w)) = random_pos w + 32"
  "utc_now (snd (generate_key_pair L w)) = utc_now w"
  "stdout (snd (generate_key_pair L w)) = stdout w"
  "trace (snd (generate_key_pair L w)) = trace w @ [Urandom 32]"
  "traceback (snd (generate_key_pair L w)) = traceback w"
  by (simp_all add: generate_key_pair_def urandom_def Let_def)

lemma generate_key_pair_log_event:
  "fst (generate_key_pair L (log_event e w)) = fst (generate_key_pair L w)"
  "stderr (snd (generate_key_pair L (log_event e w))) = stderr (snd (generate_key_pair L w))"
  "random_pos (snd (generate_key_pair L (log_event e w))) =
     random_pos (snd (generate_key_pair L w))"
  by (simp_all add: generate_key_pair_def urandom_def Let_def)

lemma load_signing_key_raises:
  "fst (path_exists (SIGNING_KEY_PATH (script_file w)) w) = Inl e \<Longrightarrow>
   load_signing_key L w =
     (Inl e, log_event (Stat (path_str (SIGNING_KEY_PATH (script_file w)))) w)"
  by (simp add: load_signing_key_def Let_def split: prod.splits) (simp add: path_exists_def)

lemma load_signing_key_absent:
  "fst (path_exists (SIGNING_KEY_PATH (script_file w)) w) = Inr False \<Longrightarrow>
   load_signing_key L w =
     generate_key_pair L
       (print_err ''Generating new key pair...''
         (print_err (''No signing key found at '' @ path_str (SIGNING_KEY_PATH (script_file w)))
           (log_event (Stat (path_str (SIGNING_KEY_PATH (script_file w)))) w)))"
  by (simp add: load_signing_key_def Let_def split: prod.splits) (simp add: path_exists_def)

lemma load_signing_key_present:
  "fst (path_exists (SIGNING_KEY_PATH (script_file w)) w) = Inr True \<Longrightarrow>
   load_signing_key L w =
     (case files w (path_str (SIGNING_KEY_PATH (script_file w))) of
        Some (File c r f) \<Rightarrow>
          if \<not> r then Inl (PermissionError (path_str (SIGNING_KEY_PATH (script_file w))))
          else if (case f of None \<Rightarrow> False | Some k \<Rightarrow> k < length c) then Inl (OSError 5)
          else key_from_bytes c
      | _ \<Rightarrow> Inl (IsADirectoryError (path_str (SIGNING_KEY_PATH (script_file w)))),
      log_event (OpenRead (path_str (SIGNING_KEY_PATH (script_file w))))
        (log_event (Stat (path_str (SIGNING_KEY_PATH (script_file w)))) w))"
  by (simp add: load_signing_key_def Let_def split: prod.splits)
     (auto simp: path_exists_def open_read_def f_read_all_def f_read_def key_from_bytes_def
        Let_def split: option.splits node.splits if_splits sum.splits)

lemma path_exists_result:
  obtains e where "fst (path_exists p w) = Inl e"
  | "fst (path_exists p w) = Inr False"
  | "fst (path_exists p w) = Inr True"
proof (cases "fst (path_exists p w)")
  case (Inl e)
  then show ?thesis by (rule that(1))
next
  case (Inr b)
  then show ?thesis by (cases b) (auto intro: that)
qed

lemma load_signing_key_eq:
  "load_signing_key L w =
     (case fst (path_exists (SIGNING_KEY_PATH (script_file w)) w) of
        Inl e \<Rightarrow> (Inl e, log_event (Stat (path_str (SIGNING_KEY_PATH (script_file w)))) w)
      | Inr present \<Rightarrow>
          if present then
            (case files w (path_str (SIGNING_KEY_PATH (script_file w))) of
               Some (File c r f) \<Rightarrow>
                 if \<not> r then Inl (PermissionError (path_str (SIGNING_KEY_PATH (script_file w))))
                 else if (case f of None \<Rightarrow> False | Some k \<Rightarrow> k < length c)
                   then Inl (OSError 5)
                 else key_from_bytes c
             | _ \<Rightarrow> Inl (IsADirectoryError (path_str (SIGNING_KEY_PATH (script_file w)))),
             log_event (OpenRead (path_str (SIGNING_KEY_PATH (script_file w))))
               (log_event (Stat (path_str (SIGNING_KEY_PATH (script_file w)))) w))
          else
            generate_key_pair L
              (print_err ''Generating new key pair...''
                (print_err (''No signing key found at '' @
                    path_str (SIGNING_KEY_PATH (script_file w)))
                  (log_event (Stat (path_str (SIGNING_KEY_PATH (script_file w)))) w))))"
proof (cases rule: path_exists_result [of "SIGNING_KEY_PATH (script_file w)" w])
  case (1 e)
  show ?thesis
    by (simp only: load_signing_key_raises [OF 1] 1 sum.case)
next
  case 2
  show ?thesis
    by (simp only: load_signing_key_absent [OF 2] 2 sum.case if_False)
next
  case 3
  show ?thesis
    by (simp only: load_signing_key_present [OF 3] 3 sum.case if_True)
qed

lemma load_signing_key_frame [simp]:
  "files (snd (load_signing_key L w)) = files w"
  "script_file (snd (load_signing_key L w)) = script_file w"
  "random_source (snd (load_signing_key L w)) = random_source w"
  "utc_now (snd (load_signing_key L w)) = utc_now w"
  "stdout (snd (load_signing_key L w)) = stdout w"
  "traceback (snd (load_signing_key L w)) = traceback w"
  by (simp_all add: load_signing_key_eq split: sum.splits)

lemma load_signing_key_trace:
  "trace (snd (load_signing_key L w)) =
     trace w @ Stat (path_str (SIGNING_KEY_PATH (script_file w))) #
       (case fst (path_exists (SIGNING_KEY_PATH (script_file w)) w) of
          Inl e \<Rightarrow> []
        | Inr present \<Rightarrow>
            if present then [OpenRead (path_str (SIGNING_KEY_PATH (script_file w)))]
            else [Urandom 32])"
  by (simp add: load_signing_key_eq split: sum.splits)

lemma load_signing_key_log_event [simp]:
  "fst (load_signing_key L (log_event e w)) = fst (load_signing_key L w)"
  "stderr (snd (load_signing_key L (log_event e w))) = stderr (snd (load_signing_key L w))"
  "random_pos (snd (load_signing_key L (log_event e w))) =
     random_pos (snd (load_signing_key L w))"
proof -
  have s: "script_file (log_event e w) = script_file w"
    and f: "files (log_event e w) = files w"
    and p: "\<And>q. fst (path_exists q (log_event e w)) = fst (path_exists q w)"
    by simp_all
  show "fst (load_signing_key L (log_event e w)) = fst (load_signing_key L w)"
    unfolding load_signing_key_eq [of L "log_event e w"] load_signing_key_eq [of L w] s f p
    by (simp add: generate_key_pair_def urandom_def Let_def split: sum.splits)
  show "stderr (snd (load_signing_key L (log_event e w))) = stderr (snd (load_signing_key L w))"
    unfolding load_signing_key_eq [of L "log_event e w"] load_signing_key_eq [of L w] s f p
    by (simp add: generate_key_pair_def urandom_def Let_def split: sum.splits)
  show "random_pos (snd (load_signing_key L (log_event e w))) =
     random_pos (snd (load_signing_key L w))"
    unfolding load_signing_key_eq [of L "log_event e w"] load_signing_key_eq [of L w] s f p
    by (simp add: generate_key_pair_def urandom_def Let_def split: sum.splits)
qed

lemma compute_sha256_frame [simp]:
  "fst (compute_sha256 p (log_event e w)) = fst (compute_sha256 p w)"
  "fst (compute_sha256 p (snd (load_signing_key L w))) = fst (compute_sha256 p w)"
  by (rule compute_sha256_files, simp)+

lemma a2b_base64_error:
  "a2b_base64 q l p out s = Inl e \<Longrightarrow> e = BinasciiError"
proof (induction q l p out s rule: a2b_base64.induct)
  case (1 quad_pos leftchar pads out)
  then show ?case by (auto split: if_splits)
next
  case (2 quad_pos leftchar pads out c cs)
  show ?case
  proof (cases "c = CHR ''=''")
    case True
    with 2 show ?thesis by (simp split: if_splits)
  next
    case False
    show ?thesis
    proof (cases "b64_value c")
      case None
      with 2 False show ?thesis by simp
    next
      case (Some v)
      with 2 False show ?thesis by (simp split: if_splits)
    qed
  qed
qed

lemma SigningKey_b64_error:
  "SigningKey_b64 s = Inl e \<Longrightarrow> e = BinasciiError \<or> e = ValueError"
proof -
  assume a: "SigningKey_b64 s = Inl e"
  show ?thesis
  proof (cases "b64decode s")
    case (Inl e')
    with a have "e' = e" by (simp add: SigningKey_b64_def)
    with Inl a2b_base64_error [of 0 0 0 "[]" s e] show ?thesis
      by (simp add: b64decode_def)
  next
    case (Inr sd)
    with a show ?thesis by (simp add: SigningKey_b64_def split: if_splits)
  qed
qed

lemma SigningKey_b64_ok:
  "(SigningKey_b64 s = Inr k) = (b64decode s = Inr (seed k) \<and> length (seed k) = 32)"
proof (cases "b64decode s")
  case (Inl e)
  then show ?thesis by (simp add: SigningKey_b64_def)
next
  case (Inr sd)
  then show ?thesis by (cases k) (auto simp: SigningKey_b64_def)
qed

lemma key_from_bytes_error:
  "key_from_bytes c = Inl e \<Longrightarrow>
   e = UnicodeDecodeError \<or> e = BinasciiError \<or> e = ValueError"
proof -
  assume a: "key_from_bytes c = Inl e"
  show ?thesis
  proof (cases "read_text c")
    case (Inl e')
    then have "e' = UnicodeDecodeError"
      by (simp add: read_text_def split: option.splits)
    with a Inl show ?thesis by (simp add: key_from_bytes_def)
  next
    case (Inr t)
    with a have "SigningKey_b64 (str_encode (strip_text t)) = Inl e"
      by (simp add: key_from_bytes_def)
    from SigningKey_b64_error [OF this] show ?thesis by blast
  qed
qed

lemma load_signing_key_error:
  assumes a: "fst (load_signing_key L w) = Inl e"
  shows "e \<noteq> SystemExit n"
proof (cases rule: path_exists_result [of "SIGNING_KEY_PATH (script_file w)" w])
  case (1 x)
  with a path_exists_error [OF 1, of n] show ?thesis
    by (simp add: load_signing_key_eq)
next
  case 2
  with a show ?thesis by (simp add: load_signing_key_eq)
next
  case 3
  show ?thesis
  proof (cases "files w (path_str (SIGNING_KEY_PATH (script_file w)))")
    case None
    with a 3 show ?thesis by (auto simp: load_signing_key_eq)
  next
    case (Some nd)
    show ?thesis
    proof (cases nd)
      case (File c r f)
      with a 3 Some have "key_from_bytes c = Inl e
          \<or> e = PermissionError (path_str (SIGNING_KEY_PATH (script_file w)))
          \<or> e = OSError 5"
        by (simp add: load_signing_key_eq split: if_splits)
      with key_from_bytes_error [of c e] show ?thesis by auto
    qed (use a 3 Some in \<open>auto simp: load_signing_key_eq\<close>)
  qed
qed

lemma sign_release_raises:
  "fst (path_exists (mk_path zarg) w) = Inl e \<Longrightarrow>
   sign_release L version zarg w = (Inl e, log_event (Stat (path_str (mk_path zarg))) w)"
  by (simp add: sign_release_def Let_def split: prod.splits) (simp add: path_exists_def)

lemma sign_release_absent:
  "fst (path_exists (mk_path zarg) w) = Inr False \<Longrightarrow>
   sign_release L version zarg w =
     (Inl (SystemExit 1),
      print_err (''Error: ZIP file not found: '' @ path_str (mk_path zarg))
        (log_event (Stat (path_str (mk_path zarg))) w))"
  by (simp add: sign_release_def Let_def split: prod.splits) (simp add: path_exists_def)

lemma sign_release_present:
  assumes ex: "fst (path_exists (mk_path zarg) w) = Inr True"
  shows "sign_release L version zarg w =
     (case fst (load_signing_key L w) of
        Inl e \<Rightarrow> (Inl e, snd (load_signing_key L (log_event (Stat (path_str (mk_path zarg))) w)))
      | Inr k \<Rightarrow>
          (case fst (compute_sha256 (mk_path zarg) w) of
             Inl e \<Rightarrow>
               (Inl e, log_event (OpenRead (path_str (mk_path zarg)))
                  (snd (load_signing_key L (log_event (Stat (path_str (mk_path zarg))) w))))
           | Inr sha \<Rightarrow>
               (Inr (),
                print_summary version sha (verify_key_b64 L k) (strftime (utc_now w))
                  (print_out
                    (json_dumps (update_info version
                       (DOWNLOAD_BASE_URL @ ''/'' @ path_name (mk_path zarg)) sha
                       (strftime (utc_now w))
                       (sign_b64 L k (encode (canonical_message version
                          (DOWNLOAD_BASE_URL @ ''/'' @ path_name (mk_path zarg)) sha
                          (strftime (utc_now w)))))
                       (dict_get CHANGELOG version
                          (''### '' @ version @ [LF] @ ''- Bug fixes and improvements''))))
                    (log_event ReadClock
                      (log_event (OpenRead (path_str (mk_path zarg)))
                        (snd (load_signing_key L
                           (log_event (Stat (path_str (mk_path zarg))) w)))))))))"
proof -
  let ?zp = "path_str (mk_path zarg)"
  let ?w1 = "log_event (Stat ?zp) w"
  have pe: "path_exists (mk_path zarg) w = (Inr True, ?w1)"
    using ex path_exists_world [of "mk_path zarg" w]
    by (cases "path_exists (mk_path zarg) w") simp
  obtain r w2 where ld: "load_signing_key L ?w1 = (r, w2)"
    by (cases "load_signing_key L ?w1")
  have r: "fst (load_signing_key L w) = r"
    using ld load_signing_key_log_event(1) [of L "Stat ?zp" w] by simp
  have w2: "snd (load_signing_key L ?w1) = w2"
    using ld by simp
  show ?thesis
  proof (cases r)
    case (Inl e)
    have "sign_release L version zarg w = (Inl e, w2)"
      unfolding sign_release_def by (simp add: Let_def pe ld Inl)
    then show ?thesis
      by (simp add: r w2 Inl)
  next
    case (Inr k)
    obtain h w3 where cs: "compute_sha256 (mk_path zarg) w2 = (h, w3)"
      by (cases "compute_sha256 (mk_path zarg) w2")
    have "fst (compute_sha256 (mk_path zarg) (snd (load_signing_key L ?w1))) =
          fst (compute_sha256 (mk_path zarg) w)"
      by simp
    then have h: "fst (compute_sha256 (mk_path zarg) w) = h"
      using cs w2 by simp
    have w3: "log_event (OpenRead ?zp) w2 = w3"
      using cs compute_sha256_world [of "mk_path zarg" w2] by simp
    have t: "utc_now w3 = utc_now w"
      using w3 [symmetric] w2 [symmetric] by simp
    show ?thesis
    proof (cases h)
      case (Inl e)
      have "sign_release L version zarg w = (Inl e, w3)"
        unfolding sign_release_def by (simp add: Let_def pe ld Inr cs Inl)
      then show ?thesis
        by (simp add: r w2 Inr h w3 Inl)
    next
      case sha: (Inr sha)
      have "sign_release L version zarg w =
        (Inr (),
         print_summary version sha (verify_key_b64 L k) (strftime (utc_now w))
           (print_out
             (json_dumps (update_info version
                (DOWNLOAD_BASE_URL @ ''/'' @ path_name (mk_path zarg)) sha
                (strftime (utc_now w))
                (sign_b64 L k (encode (canonical_message version
                   (DOWNLOAD_BASE_URL @ ''/'' @ path_name (mk_path zarg)) sha
                   (strftime (utc_now w)))))
                (dict_get CHANGELOG version
                   (''### '' @ version @ [LF] @ ''- Bug fixes and improvements''))))
             (log_event ReadClock w3)))"
        unfolding sign_release_def by (simp add: Let_def pe ld Inr cs sha now_utc_def t)
      then show ?thesis
        by (simp add: r w2 Inr h w3 sha)
    qed
  qed
qed

lemma sign_release_eq:
  "sign_release L version zarg w =
     (case fst (path_exists (mk_path zarg) w) of
        Inl e \<Rightarrow> (Inl e, log_event (Stat (path_str (mk_path zarg))) w)
      | Inr present \<Rightarrow>
          if \<not> present then
            (Inl (SystemExit 1),
             print_err (''Error: ZIP file not found: '' @ path_str (mk_path zarg))
               (log_event (Stat (path_str (mk_path zarg))) w))
          else
     (case fst (load_signing_key L w) of
        Inl e \<Rightarrow> (Inl e, snd (load_signing_key L (log_event (Stat (path_str (mk_path zarg))) w)))
      | Inr k \<Rightarrow>
          (case fst (compute_sha256 (mk_path zarg) w) of
             Inl e \<Rightarrow>
               (Inl e, log_event (OpenRead (path_str (mk_path zarg)))
                  (snd (load_signing_key L (log_event (Stat (path_str (mk_path zarg))) w))))
           | Inr sha \<Rightarrow>
               (Inr (),
                print_summary version sha (verify_key_b64 L k) (strftime (utc_now w))
                  (print_out
                    (json_dumps (update_info version
                       (DOWNLOAD_BASE_URL @ ''/'' @ path_name (mk_path zarg)) sha
                       (strftime (utc_now w))
                       (sign_b64 L k (encode (canonical_message version
                          (DOWNLOAD_BASE_URL @ ''/'' @ path_name (mk_path zarg)) sha
                          (strftime (utc_now w)))))
                       (dict_get CHANGELOG version
                          (''### '' @ version @ [LF] @ ''- Bug fixes and improvements''))))
                    (log_event ReadClock
                      (log_event (OpenRead (path_str (mk_path zarg)))
                        (snd (load_signing_key L
                           (log_event (Stat (path_str (mk_path zarg))) w))))))))))"
proof (cases rule: path_exists_result [of "mk_path zarg" w])
  case (1 e)
  show ?thesis
    by (simp only: sign_release_raises [OF 1] 1 sum.case)
next
  case 2
  show ?thesis
    by (simp only: sign_release_absent [OF 2] 2 sum.case not_False_eq_True if_True)
next
  case 3
  show ?thesis
    by (simp only: sign_release_present [OF 3] 3 sum.case not_True_eq_False if_False)
qed

lemma sign_release_files [simp]: "files (snd (sign_release L version zarg w)) = files w"
  by (simp add: sign_release_eq split: sum.splits)

lemma sign_release_traceback [simp]:
  "traceback (snd (sign_release L version zarg w)) = traceback w"
  by (simp add: sign_release_eq split: sum.splits)


lemma sign_release_exit:
  "(fst (sign_release L version zarg w) = Inl (SystemExit n)) =
     (n = 1 \<and> fst (path_exists (mk_path zarg) w) = Inr False)"
proof (cases rule: path_exists_result [of "mk_path zarg" w])
  case (1 e)
  with path_exists_error [OF 1, of n] show ?thesis
    by (auto simp: sign_release_raises)
next
  case 2
  then show ?thesis by (auto simp: sign_release_absent)
next
  case 3
  show ?thesis
  proof (cases "fst (load_signing_key L w)")
    case (Inl e)
    with 3 load_signing_key_error [of L w e n] show ?thesis
      by (auto simp: sign_release_present [OF 3])
  next
    case k: (Inr k)
    show ?thesis
    proof (cases "fst (compute_sha256 (mk_path zarg) w)")
      case (Inl e)
      with 3 k compute_sha256_error [of "mk_path zarg" w e n] show ?thesis
        by (auto simp: sign_release_present [OF 3])
    next
      case (Inr sha)
      with 3 k show ?thesis
        by (simp add: sign_release_present [OF 3])
    qed
  qed
qed



lemma sign_release_trace:
  "trace (snd (sign_release L version zarg w)) =
     trace w @ Stat (path_str (mk_path zarg)) #
     (case fst (path_exists (mk_path zarg) w) of
        Inl e \<Rightarrow> []
      | Inr present \<Rightarrow>
          if \<not> present then []
          else
            Stat (path_str (SIGNING_KEY_PATH (script_file w))) #
            (case fst (path_exists (SIGNING_KEY_PATH (script_file w)) w) of
               Inl e \<Rightarrow> []
             | Inr there \<Rightarrow>
                 if there then [OpenRead (path_str (SIGNING_KEY_PATH (script_file w)))]
                 else [Urandom 32]) @
            (case fst (load_signing_key L w) of
               Inl e \<Rightarrow> []
             | Inr k \<Rightarrow>
                 OpenRead (path_str (mk_path zarg)) #
                 (case fst (compute_sha256 (mk_path zarg) w) of
                    Inl e \<Rightarrow> []
                  | Inr sha \<Rightarrow> [ReadClock])))"
proof (cases rule: path_exists_result [of "mk_path zarg" w])
  case (1 e)
  then show ?thesis by (simp add: sign_release_raises)
next
  case 2
  then show ?thesis by (simp add: sign_release_absent)
next
  case 3
  have t: "trace (snd (load_signing_key L (log_event (Stat (path_str (mk_path zarg))) w))) =
        trace w @ Stat (path_str (mk_path zarg)) #
          Stat (path_str (SIGNING_KEY_PATH (script_file w))) #
          (case fst (path_exists (SIGNING_KEY_PATH (script_file w)) w) of
             Inl e \<Rightarrow> []
           | Inr there \<Rightarrow>
               if there then [OpenRead (path_str (SIGNING_KEY_PATH (script_file w)))]
               else [Urandom 32])"
    unfolding load_signing_key_trace [of L "log_event (Stat (path_str (mk_path zarg))) w"]
      log_event_frame path_exists_log_event
    by simp
  show ?thesis
    by (simp add: sign_release_present [OF 3] 3 t split: sum.splits)
qed

lemma main_files [simp]: "files (snd (main L argv w)) = files w"
  by (simp add: main_def)


lemma main_exit: "fst (main L argv w) = Inl (SystemExit n) \<Longrightarrow> n = 1"
  by (cases "length argv < 3") (simp_all add: main_def sign_release_exit)


lemma run_status:
  "fst (run L argv w) = (case fst (main L argv w) of Inl e \<Rightarrow> 1 | Inr u \<Rightarrow> 0)"
proof -
  obtain r w' where m: "main L argv w = (r, w')"
    by (cases "main L argv w")
  show ?thesis
  proof (cases r)
    case (Inl e)
    show ?thesis
    proof (cases e)
      case (SystemExit n)
      with m Inl main_exit [of L argv w n] show ?thesis
        by (simp add: run_def)
    qed (use m Inl in \<open>simp_all add: run_def\<close>)
  next
    case (Inr u)
    with m show ?thesis by (simp add: run_def)
  qed
qed


lemma run_world:
  "stdout (snd (run L argv w)) = stdout (snd (main L argv w))"
  "trace (snd (run L argv w)) = trace (snd (main L argv w))"
  "random_pos (snd (run L argv w)) = random_pos (snd (main L argv w))"
  "files (snd (run L argv w)) = files w"
proof -
  obtain r w' where m: "main L argv w = (r, w')"
    by (cases "main L argv w")
  then have f: "files w' = files w"
    using main_files [of L argv w] by simp
  from m f show "stdout (snd (run L argv w)) = stdout (snd (main L argv w))"
    "trace (snd (run L argv w)) = trace (snd (main L argv w))"
    "random_pos (snd (run L argv w)) = random_pos (snd (main L argv w))"
    "files (snd (run L argv w)) = files w"
    by (simp_all add: run_def split: sum.splits exn.splits)
qed


lemma main_trace:
  "\<exists>evs. trace (snd (main L argv w)) = trace w @ evs \<and>
     set evs \<subseteq> {Stat (path_str (mk_path (argv ! 2))),
                 Stat (path_str (SIGNING_KEY_PATH (script_file w))),
                 OpenRead (path_str (SIGNING_KEY_PATH (script_file w))),
                 OpenRead (path_str (mk_path (argv ! 2))), Urandom 32, ReadClock}"
  by (auto simp: main_def sign_release_trace split: sum.splits)

lemma split_slash_plain: "CHR ''/'' \<notin> set s \<Longrightarrow> split_slash cur s = [cur @ s]"
  by (induction s arbitrary: cur) auto

lemma path_str_plain:
  assumes "CHR ''/'' \<notin> set s" and "s \<noteq> []" and "s \<noteq> ''.''"
  shows "path_str (mk_path s) = s"
proof -
  from assms(1,2) have "takeWhile (\<lambda>c. c = CHR ''/'') s = []"
    by (cases s) auto
  then have a: "path_anchor s = []"
    by (simp add: path_anchor_def)
  from assms show ?thesis
    by (simp add: mk_path_def a split_slash_plain path_str_def)
qed

lemma key_path_opt:
  "path_str (SIGNING_KEY_PATH ''/opt/sign-release.py'') = ''/opt/.signing-key''"
  by (simp add: SIGNING_KEY_PATH_def path_join_def path_parent_def mk_path_def path_anchor_def
      path_str_def Let_def)

lemma path_missing: "path_str (mk_path ''missing.zip'') = ''missing.zip''"
  by (rule path_str_plain) simp_all


lemma path_release: "path_str (mk_path ''release'') = ''release''"
  by (rule path_str_plain) simp_all

lemma length_long_name: "length long_name = 304"
  by (simp add: long_name_def)

lemma path_long_name: "path_str (mk_path long_name) = long_name"
proof (rule path_str_plain)
  show "CHR ''/'' \<notin> set long_name"
    by (simp add: long_name_def)
  show "long_name \<noteq> []"
    using length_long_name by auto
  show "long_name \<noteq> ''.''"
  proof
    assume a: "long_name = ''.''"
    have "length long_name = length ''.''"
      by (rule arg_cong [OF a])
    with length_long_name show False by simp
  qed
qed

lemma bare_world_sel [simp]:
  "files bare_world = (\<lambda>p. None)"
  "script_file bare_world = ''/opt/sign-release.py''"
  "random_pos bare_world = 0"
  "stdout bare_world = []"
  "stderr bare_world = []"
  "trace bare_world = []"
  by (simp_all add: bare_world_def)

lemma put_node_sel [simp]:
  "files (put_node p nd w) = (files w)(p \<mapsto> nd)"
  "script_file (put_node p nd w) = script_file w"
  "random_pos (put_node p nd w) = random_pos w"
  "stdout (put_node p nd w) = stdout w"
  "stderr (put_node p nd w) = stderr w"
  "trace (put_node p nd w) = trace w"
  "utc_now (put_node p nd w) = utc_now w"
  "random_source (put_node p nd w) = random_source w"
  "traceback (put_node p nd w) = traceback w"
  by (simp_all add: put_node_def)




section \<open>Properties\<close>

text \<open>
  C2.  The signed bytes are the four lines \<^verbatim>\<open>version=\<close>, \<^verbatim>\<open>download_url=\<close>,
  \<^verbatim>\<open>sha256=\<close>, \<^verbatim>\<open>released_at=\<close> in this order, each holding its own field and ending
  in a newline, and nothing else.  The message is a function of the four fields, and
  replacing any single field by a different value gives a different message.
\<close>

theorem canonical_message_format:
  "encode (canonical_message v d s r) =
     concat [''version='', v, [CHR 0x0A], ''download_url='', d, [CHR 0x0A],
             ''sha256='', s, [CHR 0x0A], ''released_at='', r, [CHR 0x0A]]
   \<and> (canonical_message v' d s r = canonical_message v d s r) = (v' = v)
   \<and> (canonical_message v d' s r = canonical_message v d s r) = (d' = d)
   \<and> (canonical_message v d s' r = canonical_message v d s r) = (s' = s)
   \<and> (canonical_message v d s r' = canonical_message v d s r) = (r' = r)"
  by (simp add: canonical_message_def encode_def LF_def)

text \<open>
  C4 (amended).  When the existence test of line 113 does not find the archive, the run
  ends with status 1 before the signing key is touched: the only system call made is that
  test, so the key file is neither looked for nor opened, no random bytes are drawn for a
  new key, and nothing reaches the primary channel.  When the test reports absence
  (nothing at the path, or a component on the way that is not a directory, or too many
  symbolic links), the run prints \<^verbatim>\<open>Error: ZIP file not found\<close> and calls \<^verbatim>\<open>sys.exit(1)\<close>.
  When the test itself fails (a name that is too long, a directory that may not be
  searched), its \<^verbatim>\<open>OSError\<close> is not caught and ends the run without that message.
\<close>


theorem archive_not_found_before_key:
  assumes "fst (path_exists (mk_path zarg) w) \<noteq> Inr True"
  shows "trace (snd (sign_release L version zarg w)) = trace w @ [Stat (path_str (mk_path zarg))]
    \<and> random_pos (snd (sign_release L version zarg w)) = random_pos w
    \<and> stdout (snd (sign_release L version zarg w)) = stdout w
    \<and> fst (run L [prog, version, zarg] w) = 1
    \<and> (case fst (path_exists (mk_path zarg) w) of
         Inr present \<Rightarrow>
           fst (sign_release L version zarg w) = Inl (SystemExit 1) \<and>
           stderr (snd (sign_release L version zarg w)) =
             stderr w @ ''Error: ZIP file not found: '' @ path_str (mk_path zarg) @ [LF]
       | Inl e \<Rightarrow>
           fst (sign_release L version zarg w) = Inl e \<and>
           stderr (snd (sign_release L version zarg w)) = stderr w)
    \<and> (fst (path_exists (mk_path zarg) w) = Inr False) =
        (files w (path_str (mk_path zarg)) = None \<or>
         files w (path_str (mk_path zarg)) = Some (Unreachable ENOTDIR) \<or>
         files w (path_str (mk_path zarg)) = Some (Unreachable ELOOP))"
proof -
  have c: "(fst (path_exists (mk_path zarg) w) = Inr False) =
        (files w (path_str (mk_path zarg)) = None \<or>
         files w (path_str (mk_path zarg)) = Some (Unreachable ENOTDIR) \<or>
         files w (path_str (mk_path zarg)) = Some (Unreachable ELOOP))"
    by (auto simp: path_exists_cases split: option.splits node.splits)
  have m: "trace (snd (sign_release L version zarg w)) =
        trace w @ [Stat (path_str (mk_path zarg))]
    \<and> random_pos (snd (sign_release L version zarg w)) = random_pos w
    \<and> stdout (snd (sign_release L version zarg w)) = stdout w
    \<and> fst (run L [prog, version, zarg] w) = 1
    \<and> (case fst (path_exists (mk_path zarg) w) of
         Inr present \<Rightarrow>
           fst (sign_release L version zarg w) = Inl (SystemExit 1) \<and>
           stderr (snd (sign_release L version zarg w)) =
             stderr w @ ''Error: ZIP file not found: '' @ path_str (mk_path zarg) @ [LF]
       | Inl e \<Rightarrow>
           fst (sign_release L version zarg w) = Inl e \<and>
           stderr (snd (sign_release L version zarg w)) = stderr w)"
  proof (cases rule: path_exists_result [of "mk_path zarg" w])
    case (1 e)
    then show ?thesis
      by (simp add: sign_release_raises run_status main_def)
  next
    case 2
    then show ?thesis
      by (simp add: sign_release_absent run_status main_def)
  next
    case 3
    with assms show ?thesis by simp
  qed
  from m c show ?thesis
    by (elim conjE) (intro conjI; assumption)
qed

theorem archive_not_found_before_key_witness:
  "fst (path_exists (mk_path ''missing.zip'') bare_world) \<noteq> Inr True
   \<and> fst (sign_release stub_nacl ''3.1.4'' ''missing.zip'' bare_world) = Inl (SystemExit 1)
   \<and> fst (run stub_nacl [''sign-release.py'', ''3.1.4'', ''missing.zip''] bare_world) = 1
   \<and> trace (snd (sign_release stub_nacl ''3.1.4'' ''missing.zip'' bare_world)) =
       [Stat ''missing.zip'']"
proof -
  have p: "fst (path_exists (mk_path ''missing.zip'') bare_world) = Inr False"
    by (simp add: path_exists_cases)
  then have h: "fst (path_exists (mk_path ''missing.zip'') bare_world) \<noteq> Inr True"
    by simp
  show ?thesis
    using h archive_not_found_before_key [OF h, of stub_nacl "''3.1.4''" "''sign-release.py''"]
    by (simp add: path_missing p)
qed

text \<open>
  C4 as stated fails for an archive whose name is too long to exist: \<^verbatim>\<open>Path.exists()\<close>
  raises \<^verbatim>\<open>OSError\<close> (\<^verbatim>\<open>ENAMETOOLONG\<close>), which line 113 does not catch, so there is neither
  the message nor \<^verbatim>\<open>sys.exit(1)\<close>.
\<close>

theorem long_name_archive_counterexample:
  "files long_name_world (path_str (mk_path long_name)) = Some (Unreachable ENAMETOOLONG)
   \<and> fst (sign_release stub_nacl ''3.1.4'' long_name long_name_world) = Inl (OSError 36)
   \<and> fst (sign_release stub_nacl ''3.1.4'' long_name long_name_world) \<noteq> Inl (SystemExit 1)
   \<and> stderr (snd (sign_release stub_nacl ''3.1.4'' long_name long_name_world)) = []"
proof -
  have f: "files long_name_world (path_str (mk_path long_name)) =
      Some (Unreachable ENAMETOOLONG)"
    by (simp add: long_name_world_def path_long_name)
  then have "fst (path_exists (mk_path long_name) long_name_world) = Inl (OSError 36)"
    by (simp add: path_exists_cases)
  from sign_release_raises [OF this] f show ?thesis
    by (simp add: long_name_world_def)
qed





text \<open>
  C6 (amended).  The checksum computation fails with \<^verbatim>\<open>FileNotFoundError\<close> exactly when
  nothing exists at the path.  A directory gives \<^verbatim>\<open>IsADirectoryError\<close>, a file the process
  may not open gives \<^verbatim>\<open>PermissionError\<close>, and a path whose lookup fails gives the error of
  the lookup; all of these are raised by \<^verbatim>\<open>open\<close>, before any byte is read.  An error met
  while reading is an \<^verbatim>\<open>OSError\<close> of its own (\<^verbatim>\<open>EIO\<close>), raised exactly for a readable file
  with a device fault inside its content.  In every other case the result is the digest.
  \<^verbatim>\<open>sign_release\<close> exits with status 1 behind \<^verbatim>\<open>ZIP file not found\<close> exactly when its
  existence test reports that nothing is at the archive path.
\<close>

theorem checksum_failure_conditions:
  "fst (compute_sha256 p w) =
     (case files w (path_str p) of
        None \<Rightarrow> Inl (FileNotFoundError (path_str p))
      | Some Directory \<Rightarrow> Inl (IsADirectoryError (path_str p))
      | Some (File c r f) \<Rightarrow>
          if \<not> r then Inl (PermissionError (path_str p))
          else if (case f of None \<Rightarrow> False | Some k \<Rightarrow> k < length c) then Inl (OSError 5)
          else Inr (hexlify (sha256_digest c))
      | Some (Unreachable e) \<Rightarrow> Inl (os_error e (path_str p)))
   \<and> (fst (compute_sha256 p w) = Inl (FileNotFoundError q)) =
        (files w (path_str p) = None \<and> q = path_str p)
   \<and> (fst (compute_sha256 p w) = Inl (OSError 5)) =
        (\<exists>c k. files w (path_str p) = Some (File c True (Some k)) \<and> k < length c)
   \<and> (fst (sign_release L version zarg w) = Inl (SystemExit n)) =
        (n = 1 \<and> fst (path_exists (mk_path zarg) w) = Inr False)"
proof -
  have a: "(fst (compute_sha256 p w) = Inl (FileNotFoundError q)) =
        (files w (path_str p) = None \<and> q = path_str p)"
  proof (cases "files w (path_str p)")
    case None
    then show ?thesis by (auto simp: compute_sha256_eq)
  next
    case (Some nd)
    show ?thesis
    proof (cases nd)
      case (Unreachable e)
      with Some show ?thesis by (cases e) (simp_all add: compute_sha256_eq)
    qed (use Some in \<open>simp_all add: compute_sha256_eq split: option.splits\<close>)
  qed
  have b: "(fst (compute_sha256 p w) = Inl (OSError 5)) =
        (\<exists>c k. files w (path_str p) = Some (File c True (Some k)) \<and> k < length c)"
  proof (cases "files w (path_str p)")
    case None
    then show ?thesis by (simp add: compute_sha256_eq)
  next
    case (Some nd)
    show ?thesis
    proof (cases nd)
      case (Unreachable e)
      with Some show ?thesis by (cases e) (simp_all add: compute_sha256_eq)
    next
      case (File c r f)
      with Some show ?thesis by (cases f) (auto simp: compute_sha256_eq)
    qed (use Some in \<open>simp_all add: compute_sha256_eq\<close>)
  qed
  have c: "fst (compute_sha256 p w) =
     (case files w (path_str p) of
        None \<Rightarrow> Inl (FileNotFoundError (path_str p))
      | Some Directory \<Rightarrow> Inl (IsADirectoryError (path_str p))
      | Some (File c r f) \<Rightarrow>
          if \<not> r then Inl (PermissionError (path_str p))
          else if (case f of None \<Rightarrow> False | Some k \<Rightarrow> k < length c) then Inl (OSError 5)
          else Inr (hexlify (sha256_digest c))
      | Some (Unreachable e) \<Rightarrow> Inl (os_error e (path_str p)))"
    by (simp add: compute_sha256_eq)
  note d = sign_release_exit [of L version zarg w n]
  show ?thesis
    apply (intro conjI)
       apply (rule c)
      apply (rule a)
     apply (rule b)
    apply (rule d)
    done
qed

text \<open>
  C6 as stated fails for a path that names a directory: the existence test of
  \<^verbatim>\<open>sign_release\<close> passes, and \<^verbatim>\<open>open\<close> raises \<^verbatim>\<open>IsADirectoryError\<close>, not a
  file-not-found condition.
\<close>

theorem directory_is_not_file_not_found_counterexample:
  "files directory_world (path_str (mk_path ''release'')) = Some Directory
   \<and> fst (compute_sha256 (mk_path ''release'') directory_world) =
       Inl (IsADirectoryError ''release'')
   \<and> fst (compute_sha256 (mk_path ''release'') directory_world) \<noteq>
       Inl (FileNotFoundError ''release'')
   \<and> fst (sign_release stub_nacl ''3.1.4'' ''release'' directory_world) =
       Inl (IsADirectoryError ''release'')"
  by (simp add: directory_world_def path_release key_path_opt compute_sha256_eq
      sign_release_eq load_signing_key_eq path_exists_cases)

text \<open>
  C9.  Key generation, key loading and a whole run leave the file tree as it was.  When no
  key file exists, loading returns a key made from 32 fresh random bytes and the key path
  still holds no file afterwards, also after the whole run.  The system calls of a run
  are among: the existence tests of the archive and of the key file, opening each of the
  two for reading, drawing 32 random bytes, and reading the clock.
\<close>

theorem signing_persists_nothing:
  "files (snd (generate_key_pair L w)) = files w
   \<and> files (snd (load_signing_key L w)) = files w
   \<and> files (snd (run L argv w)) = files w
   \<and> (files w (path_str (SIGNING_KEY_PATH (script_file w))) = None \<longrightarrow>
        fst (load_signing_key L w) =
          Inr (SigningKey (map (random_source w) [random_pos w ..< random_pos w + 32]))
        \<and> files (snd (load_signing_key L w)) (path_str (SIGNING_KEY_PATH (script_file w))) = None
        \<and> files (snd (run L argv w)) (path_str (SIGNING_KEY_PATH (script_file w))) = None)
   \<and> (\<exists>evs. trace (snd (run L argv w)) = trace w @ evs \<and>
         set evs \<subseteq> {Stat (path_str (mk_path (argv ! 2))),
                     Stat (path_str (SIGNING_KEY_PATH (script_file w))),
                     OpenRead (path_str (SIGNING_KEY_PATH (script_file w))),
                     OpenRead (path_str (mk_path (argv ! 2))), Urandom 32, ReadClock})"
proof -
  have gen: "files w (path_str (SIGNING_KEY_PATH (script_file w))) = None \<Longrightarrow>
      fst (load_signing_key L w) =
        Inr (SigningKey (map (random_source w) [random_pos w ..< random_pos w + 32]))"
    by (simp add: load_signing_key_eq path_exists_cases)
  show ?thesis
    using gen main_trace [of L argv w] by (simp add: run_world)
qed

theorem signing_persists_nothing_witness:
  "files bare_world (path_str (SIGNING_KEY_PATH (script_file bare_world))) = None
   \<and> fst (load_signing_key stub_nacl bare_world) =
       Inr (SigningKey (map (random_source bare_world) [0 ..< 32]))
   \<and> files (snd (load_signing_key stub_nacl bare_world)) ''/opt/.signing-key'' = None"
proof -
  have h: "files bare_world (path_str (SIGNING_KEY_PATH (script_file bare_world))) = None"
    by simp
  show ?thesis
    using h signing_persists_nothing [of stub_nacl bare_world "[]"]
    by (simp add: key_path_opt)
qed

end
